theory Spec2Isabelle
  imports Main "HOL-Library.Sublist"
begin

section \<open>Strings\<close>

text \<open>
  Python strings are modelled as \<open>string\<close> (lists of \<open>char\<close>): the model covers text whose
  code points are below 256, where one \<open>char\<close> is one code point and \<open>length\<close> is Python's
  \<open>len\<close>. The whitespace characters of \<open>str.split()\<close> and \<open>str.strip()\<close> in that range are
  U+0009..U+000D, U+001C..U+001F, U+0020, U+0085 and U+00A0.
\<close>

definition is_space :: "char \<Rightarrow> bool" where
  "is_space c =
     (let n = (of_char c :: nat)
      in (9 \<le> n \<and> n \<le> 13) \<or> (28 \<le> n \<and> n \<le> 32) \<or> n = 133 \<or> n = 160)"

text \<open>\<open>text.split()\<close>: the maximal runs of non-whitespace characters, in order.\<close>

fun split_acc :: "string \<Rightarrow> string \<Rightarrow> string list" where
  "split_acc w [] = (if w = [] then [] else [w])"
| "split_acc w (c # cs) =
     (if is_space c then (if w = [] then split_acc [] cs else w # split_acc [] cs)
      else split_acc (w @ [c]) cs)"

definition py_split :: "string \<Rightarrow> string list" where
  "py_split s = split_acc [] s"

text \<open>\<open>' '.join(words)\<close>.\<close>

fun join_space :: "string list \<Rightarrow> string" where
  "join_space [] = []"
| "join_space [w] = w"
| "join_space (w # v # ws) = w @ '' '' @ join_space (v # ws)"

text \<open>\<open>s.strip()\<close>.\<close>

definition py_strip :: "string \<Rightarrow> string" where
  "py_strip s = rev (dropWhile is_space (rev (dropWhile is_space s)))"

text \<open>\<open>s.startswith(p)\<close> and \<open>sub in s\<close>.\<close>

definition startswith :: "string \<Rightarrow> string \<Rightarrow> bool" where
  "startswith s p = (take (length p) s = p)"

fun contains :: "string \<Rightarrow> string \<Rightarrow> bool" where
  "contains sub [] = (sub = [])"
| "contains sub (c # cs) = (startswith (c # cs) sub \<or> contains sub cs)"

text \<open>\<open>s.lower()\<close> on code points below 256: A..Z and U+00C0..U+00DE except U+00D7.\<close>

definition lower_char :: "char \<Rightarrow> char" where
  "lower_char c =
     (let n = (of_char c :: nat)
      in if (65 \<le> n \<and> n \<le> 90) \<or> (192 \<le> n \<and> n \<le> 222 \<and> n \<noteq> 215)
         then char_of (n + 32) else c)"

definition py_lower :: "string \<Rightarrow> string" where
  "py_lower s = map lower_char s"

section \<open>Record extraction\<close>

text \<open>
  The markup of a page is modelled after parsing: a page is the list of its \<open>li\<close> elements
  (what \<open>soup.find_all('li')\<close> returns; the empty text has none), and a card is the list of
  the descendants of one \<open>li\<close> in document order. Of every descendant the model keeps what
  \<open>_parse_job_card\<close> reads: the tag name, the tokens of the class attribute, the \<open>href\<close> and
  \<open>datetime\<close> attributes and the result of \<open>get_text()\<close>. \<open>card.find\<close> returns the first
  descendant in document order that matches.
\<close>

record element =
  e_tag :: string
  e_class :: "string list"
  e_href :: "string option"
  e_datetime :: "string option"
  e_text :: string

type_synonym card = "element list"
type_synonym markup = "card list"

record job =
  job_title :: string
  company :: string
  location :: string
  url :: string
  posted_date :: string

text \<open>The selectors: a tag name alone, with a class token, or with a class token whose
  lower-case form contains a marker (the \<open>lambda\<close> filters of the source).\<close>

definition by_tag :: "string \<Rightarrow> element \<Rightarrow> bool" where
  "by_tag t e = (e_tag e = t)"

definition by_class :: "string \<Rightarrow> string \<Rightarrow> element \<Rightarrow> bool" where
  "by_class t c e = (e_tag e = t \<and> c \<in> set (e_class e))"

definition by_class_like :: "string \<Rightarrow> string \<Rightarrow> element \<Rightarrow> bool" where
  "by_class_like t marker e =
     (e_tag e = t \<and> list_ex (\<lambda>c. c \<noteq> [] \<and> contains marker (py_lower c)) (e_class e))"

definition by_href_like :: "string \<Rightarrow> string \<Rightarrow> element \<Rightarrow> bool" where
  "by_href_like t marker e =
     (e_tag e = t \<and> (case e_href e of None \<Rightarrow> False | Some h \<Rightarrow> h \<noteq> [] \<and> contains marker h))"

definition by_href :: "string \<Rightarrow> element \<Rightarrow> bool" where
  "by_href t e = (e_tag e = t \<and> e_href e \<noteq> None)"

text \<open>A chain \<open>card.find(..) or card.find(..) or ...\<close>: the first selector that finds an
  element decides.\<close>

fun first_found :: "(element \<Rightarrow> bool) list \<Rightarrow> card \<Rightarrow> element option" where
  "first_found [] li = None"
| "first_found (sel # sels) li =
     (case List.find sel li of Some e \<Rightarrow> Some e | None \<Rightarrow> first_found sels li)"

definition clean_text :: "string \<Rightarrow> string" where
  "clean_text txt =
     (if txt = [] then ''N/A''
      else (let cleaned = join_space (py_split txt)
            in if cleaned \<noteq> [] then py_strip cleaned else ''N/A''))"

definition title_elem :: "card \<Rightarrow> element option" where
  "title_elem li = first_found
     [by_class ''h3'' ''base-search-card__title'', by_class_like ''h3'' ''title'',
      by_tag ''h3'', by_class ''a'' ''base-card__full-link''] li"

definition company_elem :: "card \<Rightarrow> element option" where
  "company_elem li = first_found
     [by_class ''h4'' ''base-search-card__subtitle'', by_class ''a'' ''hidden-nested-link'',
      by_tag ''h4'', by_class_like ''a'' ''company''] li"

definition location_elem :: "card \<Rightarrow> element option" where
  "location_elem li = first_found
     [by_class ''span'' ''job-search-card__location'', by_class_like ''span'' ''location'',
      by_class ''span'' ''base-search-card__metadata''] li"

definition url_elem :: "card \<Rightarrow> element option" where
  "url_elem li = first_found
     [by_class ''a'' ''base-card__full-link'', by_href_like ''a'' ''/jobs/view/'',
      by_href ''a''] li"

definition date_elem :: "card \<Rightarrow> element option" where
  "date_elem li = first_found
     [by_class ''time'' ''job-search-card__listdate'',
      by_class ''time'' ''job-search-card__listdate--new'',
      by_tag ''time'', by_class_like ''span'' ''date''] li"

definition text_or_na :: "element option \<Rightarrow> string" where
  "text_or_na el = (case el of Some e \<Rightarrow> clean_text (e_text e) | None \<Rightarrow> ''N/A'')"

definition extract_title :: "card \<Rightarrow> string" where
  "extract_title li = text_or_na (title_elem li)"

definition origin :: string where
  "origin = ''https://www.linkedin.com''"

text \<open>Lines 754-759: the prefixing of the href and the removal of the query string.\<close>

definition normalize_url :: "string \<Rightarrow> string" where
  "normalize_url h =
     (let job_url = (if startswith h ''/'' then origin @ h
                     else if \<not> startswith h ''http'' then origin @ ''/'' @ h
                     else h)
      in if CHR ''?'' \<in> set job_url then takeWhile (\<lambda>c. c \<noteq> CHR ''?'') job_url
         else job_url)"

definition extract_url :: "card \<Rightarrow> string" where
  "extract_url li =
     (case url_elem li of
        None \<Rightarrow> ''N/A''
      | Some e \<Rightarrow> (case e_href e of
                    None \<Rightarrow> ''N/A''
                  | Some h \<Rightarrow> if h \<noteq> [] then normalize_url h else ''N/A''))"

definition extract_date :: "card \<Rightarrow> string" where
  "extract_date li =
     (case date_elem li of
        None \<Rightarrow> ''N/A''
      | Some e \<Rightarrow> (case e_datetime e of
                    Some d \<Rightarrow> if d \<noteq> [] then d else clean_text (e_text e)
                  | None \<Rightarrow> clean_text (e_text e)))"

definition parse_job_card :: "card \<Rightarrow> job option" where
  "parse_job_card li =
     (let t = extract_title li
      in if t = ''N/A'' \<or> length t < 2 then None
         else (let c = text_or_na (company_elem li);
                   l = text_or_na (location_elem li);
                   u = extract_url li;
                   d = extract_date li
               in if t \<noteq> ''N/A'' \<and> u \<noteq> ''N/A''
                  then Some \<lparr>job_title = t, company = c, location = l, url = u, posted_date = d\<rparr>
                  else None))"

text \<open>\<open>parse_jobs\<close>: every card is parsed on its own; the cards that give \<open>None\<close> are left out.\<close>

definition parse_jobs :: "markup \<Rightarrow> job list" where
  "parse_jobs html_content = List.map_filter parse_job_card html_content"

section \<open>Deduplication\<close>

fun dedup_loop :: "string set \<Rightarrow> job list \<Rightarrow> job list \<Rightarrow> job list" where
  "dedup_loop seen_urls unique_jobs [] = unique_jobs"
| "dedup_loop seen_urls unique_jobs (j # js) =
     (if url j \<noteq> [] \<and> url j \<notin> seen_urls
      then dedup_loop (insert (url j) seen_urls) (unique_jobs @ [j]) js
      else dedup_loop seen_urls unique_jobs js)"

definition deduplicate_jobs :: "job list \<Rightarrow> job list" where
  "deduplicate_jobs jobs = dedup_loop {} [] jobs"

section \<open>Errors\<close>

text \<open>The exceptions the program raises itself: the four classes of lines 587-605 and the
  built-in \<open>ConnectionError\<close> of line 533.\<close>

datatype error =
  RateLimitError | AccessBlockedError | SSLError | InputValidationError | ConnectionError

section \<open>Validation of the job count\<close>

text \<open>
  \<open>int(value)\<close> on a string: surrounding whitespace is ignored, a sign may come first, and
  the digits may be separated by single underscores. Anything else is the \<open>ValueError\<close>
  (\<open>None\<close> here). The whitespace that \<open>int\<close> ignores is narrower than that of
  \<open>strip()\<close>: below 256 it is U+0009..U+000D, U+0020, U+0085 and U+00A0, and not the
  separators U+001C..U+001F. The model leaves out the interpreter's limit on the number of
  digits.
\<close>

definition is_int_space :: "char \<Rightarrow> bool" where
  "is_int_space c =
     (let n = (of_char c :: nat)
      in (9 \<le> n \<and> n \<le> 13) \<or> n = 32 \<or> n = 133 \<or> n = 160)"

definition int_strip :: "string \<Rightarrow> string" where
  "int_strip s = rev (dropWhile is_int_space (rev (dropWhile is_int_space s)))"

definition is_digit :: "char \<Rightarrow> bool" where
  "is_digit c = (let n = (of_char c :: nat) in 48 \<le> n \<and> n \<le> 57)"

definition digit_val :: "char \<Rightarrow> nat" where
  "digit_val c = of_char c - 48"

fun parse_digits :: "nat \<Rightarrow> string \<Rightarrow> nat option" where
  "parse_digits acc [] = Some acc"
| "parse_digits acc [c] = (if is_digit c then Some (10 * acc + digit_val c) else None)"
| "parse_digits acc (c # d # cs) =
     (if is_digit c then parse_digits (10 * acc + digit_val c) (d # cs)
      else if c = CHR ''_'' \<and> is_digit d then parse_digits acc (d # cs)
      else None)"

definition py_int :: "string \<Rightarrow> int option" where
  "py_int s =
     (case int_strip s of
        [] \<Rightarrow> None
      | c # cs \<Rightarrow>
          (let sgn = (if c = CHR ''-'' then - 1 else 1 :: int);
               body = (if c = CHR ''-'' \<or> c = CHR ''+'' then cs else c # cs)
           in case body of
                [] \<Rightarrow> None
              | d # ds \<Rightarrow> if is_digit d
                          then map_option (\<lambda>n. sgn * int n) (parse_digits 0 (d # ds))
                          else None))"

definition validate_job_count :: "string \<Rightarrow> int \<Rightarrow> error + int" where
  "validate_job_count val max_limit =
     (if py_strip val = [] then Inr 50
      else (case py_int val of
              None \<Rightarrow> Inl InputValidationError
            | Some num \<Rightarrow>
                if num \<le> 0 then Inl InputValidationError
                else if num > max_limit then Inl InputValidationError
                else Inr num))"

section \<open>Transport\<close>

text \<open>
  One request is the parameter dictionary of \<open>fetch_job_page\<close>. The network is an oracle:
  \<open>session_get w i rq\<close> is what the \<open>i\<close>-th call of \<open>session.get\<close> of the run does when it
  sends \<open>rq\<close> (an exception of the HTTP library, or a response), and \<open>reachable w i\<close> is what
  \<open>check_internet_connection\<close> answers after that call. The requests sent so far are kept
  in a list, whose length is the index of the next call. Sleeping and logging are left out.
\<close>

record request =
  rq_keywords :: string
  rq_location :: string
  rq_start :: nat
  rq_f_E :: "string option"

record response =
  status_code :: nat
  body :: markup

datatype request_exception =
  Req_ReadTimeout | Req_ConnectTimeout | Req_ConnectionError | Req_SSLError
| Req_HTTPError "response option" | Req_Other

record world =
  session_get :: "nat \<Rightarrow> request \<Rightarrow> request_exception + response"
  reachable :: "nat \<Rightarrow> bool"

text \<open>
  The behaviour of the HTTP library that \<open>fetch_page\<close> depends on. Its exception classes
  form a hierarchy, and an \<open>except\<close> clause catches every subclass: \<open>ConnectTimeout\<close> is both
  a \<open>Timeout\<close> and a \<open>ConnectionError\<close>, and \<open>SSLError\<close> is a \<open>ConnectionError\<close>.
  \<open>raise_for_status\<close> raises \<open>HTTPError\<close>, carrying the response, exactly for the status
  codes 400..599. The truth value of a response object is its \<open>ok\<close> attribute: false exactly
  when \<open>raise_for_status\<close> would raise.
\<close>

fun is_Timeout :: "request_exception \<Rightarrow> bool" where
  "is_Timeout Req_ReadTimeout = True"
| "is_Timeout Req_ConnectTimeout = True"
| "is_Timeout _ = False"

fun is_ConnectionError :: "request_exception \<Rightarrow> bool" where
  "is_ConnectionError Req_ConnectionError = True"
| "is_ConnectionError Req_ConnectTimeout = True"
| "is_ConnectionError Req_SSLError = True"
| "is_ConnectionError _ = False"

fun is_HTTPError :: "request_exception \<Rightarrow> bool" where
  "is_HTTPError (Req_HTTPError r) = True"
| "is_HTTPError _ = False"

fun is_SSLError :: "request_exception \<Rightarrow> bool" where
  "is_SSLError Req_SSLError = True"
| "is_SSLError _ = False"

definition is_error_status :: "nat \<Rightarrow> bool" where
  "is_error_status st = (400 \<le> st \<and> st < 600)"

definition response_bool :: "response \<Rightarrow> bool" where
  "response_bool r = (\<not> is_error_status (status_code r))"

text \<open>Lines 515-516: \<open>session.get\<close> followed by \<open>raise_for_status\<close>.\<close>

definition get_checked :: "world \<Rightarrow> nat \<Rightarrow> request \<Rightarrow> request_exception + response" where
  "get_checked w i rq =
     (case session_get w i rq of
        Inl e \<Rightarrow> Inl e
      | Inr r \<Rightarrow> if is_error_status (status_code r) then Inl (Req_HTTPError (Some r))
                 else Inr r)"

text \<open>Line 542: \<open>e.response.status_code if e.response else None\<close>.\<close>

definition error_status :: "request_exception \<Rightarrow> nat option" where
  "error_status e =
     (case e of
        Req_HTTPError (Some r) \<Rightarrow> if response_bool r then Some (status_code r) else None
      | _ \<Rightarrow> None)"

definition check_internet_connection :: "world \<Rightarrow> nat \<Rightarrow> bool" where
  "check_internet_connection w i = reachable w i"

text \<open>
  The loop \<open>for attempt in range(max_retries)\<close>, by recursion on the attempts that are
  left. The \<open>except\<close> clauses are tried in the order of the source. The result is the
  exception raised (\<open>Inl\<close>), or the text of the page or \<open>None\<close>.
\<close>

fun fetch_attempts ::
  "world \<Rightarrow> request \<Rightarrow> nat \<Rightarrow> request list \<Rightarrow> (error + markup option) \<times> request list" where
  "fetch_attempts w rq 0 sent = (Inr None, sent)"
| "fetch_attempts w rq (Suc k) sent =
     (let i = length sent; sent' = sent @ [rq]
      in case get_checked w i rq of
           Inr r \<Rightarrow> (if status_code r = 200 then Inr (Some (body r)) else Inr None, sent')
         | Inl e \<Rightarrow>
             if is_Timeout e then fetch_attempts w rq k sent'
             else if is_ConnectionError e then
               (if \<not> check_internet_connection w i then (Inl ConnectionError, sent')
                else fetch_attempts w rq k sent')
             else if is_HTTPError e then
               (if error_status e = Some 429 then (Inl RateLimitError, sent')
                else if error_status e = Some 403 then (Inl AccessBlockedError, sent')
                else fetch_attempts w rq k sent')
             else if is_SSLError e then (Inl SSLError, sent')
             else fetch_attempts w rq k sent')"

definition fetch_page ::
  "world \<Rightarrow> nat \<Rightarrow> request \<Rightarrow> request list \<Rightarrow> (error + markup option) \<times> request list" where
  "fetch_page w max_retries rq sent = fetch_attempts w rq max_retries sent"

definition EXPERIENCE_LEVELS :: "(string \<times> string) list" where
  "EXPERIENCE_LEVELS =
     [(''internship'', ''1''), (''entry'', ''2''), (''associate'', ''3''),
      (''mid-senior'', ''4''), (''director'', ''5''), (''executive'', ''6'')]"

definition JOBS_PER_PAGE :: nat where
  "JOBS_PER_PAGE = 25"

text \<open>Lines 667-674: the parameters of the request; the experience level is sent only
  when it is one of the six known names.\<close>

definition search_params :: "string \<Rightarrow> string \<Rightarrow> nat \<Rightarrow> string option \<Rightarrow> request" where
  "search_params keywords loc start experience_level =
     \<lparr>rq_keywords = keywords, rq_location = loc, rq_start = start,
      rq_f_E = (case experience_level of
                  None \<Rightarrow> None
                | Some lv \<Rightarrow> if lv \<noteq> [] then map_of EXPERIENCE_LEVELS (py_lower lv) else None)\<rparr>"

definition fetch_job_page ::
  "world \<Rightarrow> nat \<Rightarrow> string \<Rightarrow> string \<Rightarrow> nat \<Rightarrow> string option \<Rightarrow> request list
   \<Rightarrow> (error + markup option) \<times> request list" where
  "fetch_job_page w max_retries keywords loc start experience_level sent =
     fetch_page w max_retries (search_params keywords loc start experience_level) sent"

section \<open>The pagination loop\<close>

text \<open>
  The local variables of \<open>scrape\<close>, together with the requests sent so far and, for the
  statement of properties only, the list of what each iteration found (the logger and
  progress-bar calls of the loop), newest first: a fetch that gave \<open>None\<close>, a parsed
  page with its records, or an exception of the transport.
\<close>

datatype page_event = FetchFailed | Parsed "job list" | Terminal error

record run_state =
  all_jobs :: "job list"
  start :: nat
  consecutive_empty :: nat
  sent_requests :: "request list"
  events :: "page_event list"

text \<open>The ways out of the loop: the \<open>break\<close> of line 853, the \<open>break\<close> of line 867, and the
  \<open>break\<close> of line 880 or the loop condition.\<close>

datatype loop_exit = FailedRequests | NoMoreJobs | Enough

datatype step_result = Continue run_state | Break loop_exit run_state | Raise error run_state

text \<open>Lines 877-885: advance the offset, leave if enough records are there.\<close>

definition advance :: "int \<Rightarrow> run_state \<Rightarrow> step_result" where
  "advance num_jobs s =
     (let s' = s\<lparr>start := start s + JOBS_PER_PAGE\<rparr>
      in if int (length (all_jobs s')) \<ge> num_jobs then Break Enough s' else Continue s')"

text \<open>One iteration of the \<open>while\<close> loop (lines 842-885).\<close>

definition scrape_step ::
  "world \<Rightarrow> nat \<Rightarrow> string \<Rightarrow> string \<Rightarrow> int \<Rightarrow> string option \<Rightarrow> run_state \<Rightarrow> step_result" where
  "scrape_step w max_retries title loc num_jobs experience_level s =
     (case fetch_job_page w max_retries title loc (start s) experience_level (sent_requests s) of
        (Inl e, sent') \<Rightarrow> Raise e (s\<lparr>sent_requests := sent', events := Terminal e # events s\<rparr>)
      | (Inr None, sent') \<Rightarrow>
          (let s1 = s\<lparr>consecutive_empty := consecutive_empty s + 1, sent_requests := sent',
                       events := FetchFailed # events s\<rparr>
           in if consecutive_empty s1 \<ge> 3 then Break FailedRequests s1 else Continue s1)
      | (Inr (Some html_content), sent') \<Rightarrow>
          (let page_jobs = parse_jobs html_content;
               s0 = s\<lparr>sent_requests := sent', events := Parsed page_jobs # events s\<rparr>
           in if page_jobs = [] then
                (let s1 = s0\<lparr>consecutive_empty := consecutive_empty s0 + 1\<rparr>
                 in if consecutive_empty s1 \<ge> 3 then Break NoMoreJobs s1
                    else advance num_jobs s1)
              else advance num_jobs
                     (s0\<lparr>all_jobs := all_jobs s0 @ page_jobs, consecutive_empty := 0\<rparr>)))"

text \<open>The measure of the loop: the records still missing, then the empty iterations still
  allowed.\<close>

definition loop_measure :: "int \<Rightarrow> run_state \<Rightarrow> nat \<times> nat" where
  "loop_measure num_jobs s =
     (nat (num_jobs - int (length (all_jobs s))), 3 - consecutive_empty s)"

function scrape_loop ::
  "world \<Rightarrow> nat \<Rightarrow> string \<Rightarrow> string \<Rightarrow> int \<Rightarrow> string option \<Rightarrow> run_state
   \<Rightarrow> (error + loop_exit) \<times> run_state" where
  "scrape_loop w max_retries title loc num_jobs experience_level s =
     (if int (length (all_jobs s)) < num_jobs then
        (case scrape_step w max_retries title loc num_jobs experience_level s of
           Continue s' \<Rightarrow> scrape_loop w max_retries title loc num_jobs experience_level s'
         | Break reason s' \<Rightarrow> (Inr reason, s')
         | Raise e s' \<Rightarrow> (Inl e, s'))
      else (Inr Enough, s))"
  by pat_completeness auto
termination
proof (relation "inv_image (less_than <*lex*> less_than)
                   (\<lambda>(w, max_retries, title, loc, num_jobs, experience_level, s).
                      loop_measure num_jobs s)")
  show "wf (inv_image (less_than <*lex*> less_than)
              (\<lambda>(w :: world, max_retries :: nat, title :: string, loc :: string,
                  num_jobs, experience_level :: string option, s).
                 loop_measure num_jobs s))"
    by (intro wf_inv_image wf_lex_prod wf_less_than)
next
  fix w max_retries title loc num_jobs experience_level s s'
  assume "int (length (all_jobs s)) < num_jobs"
    and "scrape_step w max_retries title loc num_jobs experience_level s = Continue s'"
  then have "(loop_measure num_jobs s', loop_measure num_jobs s)
               \<in> less_than <*lex*> less_than"
    by (auto simp: scrape_step_def advance_def loop_measure_def Let_def
             split: prod.splits sum.splits option.splits if_splits)
  then show "((w, max_retries, title, loc, num_jobs, experience_level, s'),
              (w, max_retries, title, loc, num_jobs, experience_level, s))
             \<in> inv_image (less_than <*lex*> less_than)
                 (\<lambda>(w, max_retries, title, loc, num_jobs, experience_level, s).
                    loop_measure num_jobs s)"
    by simp
qed

declare scrape_loop.simps [simp del]

section \<open>The scrape operation\<close>

text \<open>\<open>xs[:n]\<close> for a Python integer \<open>n\<close>: a negative \<open>n\<close> counts from the end.\<close>

definition py_prefix :: "'a list \<Rightarrow> int \<Rightarrow> 'a list" where
  "py_prefix xs n = (if 0 \<le> n then take (nat n) xs else take (length xs - nat (- n)) xs)"

definition initial_state :: run_state where
  "initial_state = \<lparr>all_jobs = [], start = 0, consecutive_empty = 0, sent_requests = [], events = []\<rparr>"

text \<open>
  What a call of \<open>scrape\<close> leaves behind: the list it returns or the exception that leaves
  it (the \<open>try\<close> has a \<open>finally\<close> and no \<open>except\<close>, so an exception of the transport
  passes through, and the local \<open>all_jobs\<close> is lost), the attribute \<open>self.jobs\<close> after the
  call, and the requests that were sent. \<open>old_jobs\<close> is \<open>self.jobs\<close> before the call.
\<close>

record outcome =
  returned :: "error + job list"
  self_jobs :: "job list"
  requests :: "request list"

definition scrape ::
  "world \<Rightarrow> nat \<Rightarrow> job list \<Rightarrow> string \<Rightarrow> string \<Rightarrow> int \<Rightarrow> string option \<Rightarrow> outcome" where
  "scrape w max_retries old_jobs title loc num_jobs experience_level =
     (case scrape_loop w max_retries title loc num_jobs experience_level initial_state of
        (Inl e, s) \<Rightarrow> \<lparr>returned = Inl e, self_jobs = old_jobs, requests = sent_requests s\<rparr>
      | (Inr reason, s) \<Rightarrow>
          (let deduped = deduplicate_jobs (all_jobs s);
               trimmed = (if int (length deduped) > num_jobs then py_prefix deduped num_jobs
                          else deduped)
           in \<lparr>returned = Inr trimmed, self_jobs = trimmed, requests = sent_requests s\<rparr>))"

section \<open>Notions of the specification\<close>

text \<open>The acceptance rule in the words of the specification: title and url are not the
  sentinel, and the normalised title has at least two characters.\<close>

definition acceptable :: "card \<Rightarrow> bool" where
  "acceptable li =
     (extract_title li \<noteq> ''N/A'' \<and> extract_url li \<noteq> ''N/A'' \<and> 2 \<le> length (extract_title li))"

text \<open>Removing the query string: everything from the first \<open>?\<close> on. An absolute URL
  starts with the scheme \<open>http://\<close> or \<open>https://\<close>.\<close>

definition strip_query :: "string \<Rightarrow> string" where
  "strip_query u = takeWhile (\<lambda>c. c \<noteq> CHR ''?'') u"

definition is_absolute_url :: "string \<Rightarrow> bool" where
  "is_absolute_url u = (startswith u ''http://'' \<or> startswith u ''https://'')"

text \<open>Cards used as concrete inputs: a heading and a link with a site-relative href
  and a query string; a link without a heading; and a heading and a link whose href starts
  with \<open>http\<close> but has no scheme.\<close>

definition heading :: "string \<Rightarrow> element" where
  "heading t = \<lparr>e_tag = ''h3'', e_class = [], e_href = None, e_datetime = None, e_text = t\<rparr>"

definition link :: "string \<Rightarrow> element" where
  "link h = \<lparr>e_tag = ''a'', e_class = [], e_href = Some h, e_datetime = None, e_text = []\<rparr>"

definition card_relative :: card where
  "card_relative = [heading '' Data   Engineer '', link ''/jobs/view/123?refId=abc'']"

definition card_untitled :: card where
  "card_untitled = [link ''/jobs/view/123'']"

definition page_mixed :: markup where
  "page_mixed = card_untitled # card_relative # []"

definition card_http_name :: card where
  "card_http_name = [heading ''Data Engineer'', link ''http-jobs/1?x=1'']"

definition mk_job :: "string \<Rightarrow> string \<Rightarrow> job" where
  "mk_job t u = \<lparr>job_title = t, company = ''N/A'', location = ''N/A'', url = u,
                 posted_date = ''N/A''\<rparr>"

text \<open>
  An iteration yields no accepted record when its fetch gave \<open>None\<close> or its page parsed to
  no record. \<open>three_empty\<close> says that the list of iterations holds three such iterations
  in a row, \<open>empty_run\<close> counts the newest iterations of that kind, and \<open>accumulated\<close> is
  the accumulation in the words of the specification: the records of all pages, in the order
  of encounter.
\<close>

definition yields_none :: "page_event \<Rightarrow> bool" where
  "yields_none ev = (ev = FetchFailed \<or> ev = Parsed [])"

fun three_empty :: "page_event list \<Rightarrow> bool" where
  "three_empty (a # b # c # evs) =
     ((yields_none a \<and> yields_none b \<and> yields_none c) \<or> three_empty (b # c # evs))"
| "three_empty _ = False"

definition empty_run :: "page_event list \<Rightarrow> nat" where
  "empty_run evs = length (takeWhile yields_none evs)"

fun accumulated :: "page_event list \<Rightarrow> job list" where
  "accumulated [] = []"
| "accumulated (Parsed js # evs) = accumulated evs @ js"
| "accumulated (_ # evs) = accumulated evs"

fun result_state :: "step_result \<Rightarrow> run_state" where
  "result_state (Continue s) = s"
| "result_state (Break r s) = s"
| "result_state (Raise e s) = s"

text \<open>The invariant of the loop at its head.\<close>

definition loop_inv :: "run_state \<Rightarrow> bool" where
  "loop_inv s = (consecutive_empty s = empty_run (events s) \<and> \<not> three_empty (events s)
                 \<and> all_jobs s = accumulated (events s)
                 \<and> (\<forall>e. Terminal e \<notin> set (events s)))"

text \<open>
  Networks used as concrete inputs: one that answers every request with status 429; one
  that serves a page with one listing and is then unreachable; one whose page holds the
  same listing twice; one that times out three times and then serves empty pages; one whose
  page holds three listings.
\<close>

definition ok_page :: "markup \<Rightarrow> request_exception + response" where
  "ok_page html = Inr \<lparr>status_code = 200, body = html\<rparr>"

definition world_429 :: world where
  "world_429 = \<lparr>session_get = (\<lambda>i rq. Inr \<lparr>status_code = 429, body = []\<rparr>),
                reachable = (\<lambda>i. True)\<rparr>"

definition world_offline_after_one :: world where
  "world_offline_after_one =
     \<lparr>session_get = (\<lambda>i rq. if i = 0 then ok_page [card_relative] else Inl Req_ConnectionError),
      reachable = (\<lambda>i. False)\<rparr>"

definition world_duplicates :: world where
  "world_duplicates =
     \<lparr>session_get = (\<lambda>i rq. ok_page [card_relative, card_relative]), reachable = (\<lambda>i. True)\<rparr>"

definition world_unproductive :: world where
  "world_unproductive =
     \<lparr>session_get = (\<lambda>i rq. if i < 3 then Inl Req_ReadTimeout else ok_page []),
      reachable = (\<lambda>i. True)\<rparr>"

definition job_card :: "string \<Rightarrow> string \<Rightarrow> card" where
  "job_card t h = [heading t, link h]"

definition page_three :: markup where
  "page_three =
     [job_card ''Data Engineer'' ''/jobs/view/1'', job_card ''Data Analyst'' ''/jobs/view/2'',
      job_card ''Data Engineer'' ''/jobs/view/3?trk=x'']"

definition world_three :: world where
  "world_three = \<lparr>session_get = (\<lambda>i rq. ok_page page_three), reachable = (\<lambda>i. True)\<rparr>"

definition the_job :: job where
  "the_job = mk_job ''Data Engineer'' ''https://www.linkedin.com/jobs/view/123''"

definition query_rq :: request where
  "query_rq = search_params ''python'' ''India'' 0 None"

definition jobs_repeated :: "job list" where
  "jobs_repeated =
     [mk_job ''Data Engineer'' ''https://www.linkedin.com/jobs/view/1'',
      mk_job ''Data Analyst'' ''https://www.linkedin.com/jobs/view/2'',
      mk_job ''Senior Data Engineer'' ''https://www.linkedin.com/jobs/view/1'']"

section \<open>Properties of the extraction\<close>

lemma parse_job_card_None_iff: "(parse_job_card li = None) = (\<not> acceptable li)"
  by (auto simp: parse_job_card_def acceptable_def Let_def)

lemma parse_job_card_fields:
  "parse_job_card li = Some j \<Longrightarrow> job_title j = extract_title li \<and> url j = extract_url li"
  by (auto simp: parse_job_card_def Let_def split: if_splits)

lemma parse_jobs_filter:
  "parse_jobs html = map (the \<circ> parse_job_card) (filter acceptable html)"
proof -
  have "(\<lambda>li. parse_job_card li \<noteq> None) = acceptable"
    by (simp add: fun_eq_iff parse_job_card_None_iff)
  then show ?thesis
    by (simp add: parse_jobs_def List.map_filter_def)
qed

lemma heading_simps:
  "e_tag (heading t) = ''h3''" "e_class (heading t) = []" "e_href (heading t) = None"
  "e_datetime (heading t) = None" "e_text (heading t) = t"
  by (simp_all add: heading_def)

lemma link_simps:
  "e_tag (link h) = ''a''" "e_class (link h) = []" "e_href (link h) = Some h"
  "e_datetime (link h) = None" "e_text (link h) = []"
  by (simp_all add: link_def)

lemmas selector_defs =
  by_tag_def by_class_def by_class_like_def by_href_like_def by_href_def
  title_elem_def company_elem_def location_elem_def url_elem_def date_elem_def

lemma clean_text_Data_Engineer: "clean_text '' Data   Engineer '' = ''Data Engineer''"
  by (simp add: clean_text_def py_split_def py_strip_def is_space_def)

lemma clean_text_Data_Engineer': "clean_text ''Data Engineer'' = ''Data Engineer''"
  by (simp add: clean_text_def py_split_def py_strip_def is_space_def)

lemma parse_card_relative:
  "parse_job_card card_relative
     = Some (mk_job ''Data Engineer'' ''https://www.linkedin.com/jobs/view/123'')"
  by (simp add: parse_job_card_def card_relative_def extract_title_def extract_url_def
        extract_date_def text_or_na_def selector_defs heading_simps link_simps
        clean_text_Data_Engineer normalize_url_def startswith_def origin_def mk_job_def)

lemma parse_card_http_name:
  "parse_job_card card_http_name = Some (mk_job ''Data Engineer'' ''http-jobs/1'')"
  by (simp add: parse_job_card_def card_http_name_def extract_title_def extract_url_def
        extract_date_def text_or_na_def selector_defs heading_simps link_simps
        clean_text_Data_Engineer' normalize_url_def startswith_def origin_def mk_job_def)

text \<open>
  Claim C6. A candidate list item is accepted as a record if and only if its title and
  its url, after the fallback chains, are not the sentinel and the normalised title has at
  least two characters; the record carries that title and that url. Every other candidate
  is left out of the page's records, and the remaining candidates are still processed.
\<close>

theorem parse_job_card_accepts_iff:
  "(\<exists>j. parse_job_card li = Some j \<and> job_title j = extract_title li
          \<and> url j = extract_url li) = acceptable li
   \<and> parse_jobs html = map (the \<circ> parse_job_card) (filter acceptable html)"
proof -
  have "(\<exists>j. parse_job_card li = Some j) = acceptable li"
    using parse_job_card_None_iff [of li] by auto
  then show ?thesis
    using parse_job_card_fields [of li] parse_jobs_filter [of html] by blast
qed

theorem parse_job_card_accepts_iff_witness:
  "acceptable card_relative \<and> \<not> acceptable card_untitled
   \<and> parse_jobs page_mixed
       = [mk_job ''Data Engineer'' ''https://www.linkedin.com/jobs/view/123'']"
proof -
  have a: "acceptable card_relative"
    using parse_job_card_accepts_iff [of card_relative "[]"] parse_card_relative
          parse_job_card_fields [OF parse_card_relative]
    by blast
  have "parse_job_card card_untitled = None"
    by (simp add: parse_job_card_def extract_title_def text_or_na_def selector_defs link_simps
          card_untitled_def)
  then have b: "\<not> acceptable card_untitled"
    using parse_job_card_accepts_iff [of card_untitled "[]"] by auto
  from a b parse_job_card_accepts_iff [of card_relative page_mixed]
  show ?thesis by (simp add: parse_card_relative page_mixed_def)
qed

lemma strip_query_id: "CHR ''?'' \<notin> set u \<Longrightarrow> strip_query u = u"
  unfolding strip_query_def by auto

lemma normalize_url_strip:
  "normalize_url h = strip_query (if startswith h ''/'' then origin @ h
                                  else if \<not> startswith h ''http'' then origin @ ''/'' @ h
                                  else h)"
  unfolding normalize_url_def Let_def
  by (simp add: strip_query_id) (simp add: strip_query_def)

lemma strip_query_no_mark: "CHR ''?'' \<notin> set (strip_query u)"
  unfolding strip_query_def by (auto dest: set_takeWhileD)

lemma startswith_strip_query:
  "startswith u p \<Longrightarrow> CHR ''?'' \<notin> set p \<Longrightarrow> startswith (strip_query u) p"
  unfolding startswith_def strip_query_def
proof (induction p arbitrary: u)
  case Nil
  then show ?case by simp
next
  case (Cons a p)
  then show ?case by (cases u) auto
qed

lemma normalize_url_http: "startswith (normalize_url h) ''http''"
  unfolding normalize_url_strip
  by (rule startswith_strip_query) (auto simp: startswith_def origin_def)

lemma startswith_http_not_slash: "startswith h ''http'' \<Longrightarrow> \<not> startswith h ''/''"
  by (cases h) (auto simp: startswith_def)

lemma normalize_url_absolute:
  assumes "\<not> startswith h ''http'' \<or> is_absolute_url h"
  shows "is_absolute_url (normalize_url h)"
proof (cases "startswith h ''http''")
  case True
  with assms have "is_absolute_url h" by simp
  then have "is_absolute_url (strip_query h)"
    unfolding is_absolute_url_def by (auto intro: startswith_strip_query)
  with True show ?thesis
    by (simp add: normalize_url_strip startswith_http_not_slash)
next
  case False
  have "startswith (origin @ h) ''https://''" "startswith (origin @ ''/'' @ h) ''https://''"
    by (simp_all add: startswith_def origin_def)
  then have "startswith (normalize_url h) ''https://''"
    using False unfolding normalize_url_strip
    by (auto intro!: startswith_strip_query)
  then show ?thesis by (simp add: is_absolute_url_def)
qed

lemma accepted_url:
  assumes "parse_job_card li = Some j"
  shows "\<exists>e h. url_elem li = Some e \<and> e_href e = Some h \<and> h \<noteq> [] \<and> url j = normalize_url h"
proof -
  from assms have u: "url j = extract_url li" and "extract_url li \<noteq> ''N/A''"
    using parse_job_card_fields parse_job_card_None_iff [of li]
    by (auto simp: acceptable_def)
  then show ?thesis
    by (auto simp: extract_url_def split: option.splits if_splits)
qed

text \<open>
  Claim C7, as stated, fails: an href that starts with the letters \<open>http\<close> is kept as it
  is, also when it has no scheme. The card with the href \<open>http-jobs/1?x=1\<close> is accepted
  with the url \<open>http-jobs/1\<close>, which is not an absolute URL.
\<close>

theorem parse_job_card_url_not_absolute:
  "parse_job_card card_http_name = Some (mk_job ''Data Engineer'' ''http-jobs/1'')
   \<and> url (mk_job ''Data Engineer'' ''http-jobs/1'') = ''http-jobs/1''
   \<and> \<not> is_absolute_url ''http-jobs/1''"
  by (simp add: parse_card_http_name mk_job_def is_absolute_url_def startswith_def)

text \<open>
  Claim C7, amended. For every accepted record the url comes from a non-empty href \<open>h\<close>:
  an \<open>h\<close> that starts with \<open>/\<close> is prefixed with the site origin, an \<open>h\<close> that starts
  neither with \<open>/\<close> nor with \<open>http\<close> is prefixed with the origin and \<open>/\<close>, an \<open>h\<close> that
  starts with \<open>http\<close> is kept, and everything from the first \<open>?\<close> on is removed. The url
  has no query string and starts with \<open>http\<close>; it is an absolute URL whenever \<open>h\<close> does not
  start with \<open>http\<close> or starts with \<open>http://\<close> or \<open>https://\<close>.
\<close>

theorem parse_job_card_url_normalized:
  assumes "parse_job_card li = Some j"
  shows "\<exists>e h. url_elem li = Some e \<and> e_href e = Some h \<and> h \<noteq> []
           \<and> url j = strip_query (if startswith h ''/'' then origin @ h
                                    else if \<not> startswith h ''http'' then origin @ ''/'' @ h
                                    else h)
           \<and> CHR ''?'' \<notin> set (url j) \<and> startswith (url j) ''http''
           \<and> (\<not> startswith h ''http'' \<or> is_absolute_url h \<longrightarrow> is_absolute_url (url j))"
proof -
  from accepted_url [OF assms] obtain e h where
    eh: "url_elem li = Some e" "e_href e = Some h" "h \<noteq> []" and u: "url j = normalize_url h"
    by blast
  have "CHR ''?'' \<notin> set (url j)"
    by (simp add: u normalize_url_strip strip_query_no_mark)
  moreover have "startswith (url j) ''http''"
    by (simp add: u normalize_url_http)
  moreover have "\<not> startswith h ''http'' \<or> is_absolute_url h \<longrightarrow> is_absolute_url (url j)"
    by (simp add: u normalize_url_absolute)
  ultimately show ?thesis
    using eh u normalize_url_strip [of h] by auto
qed

theorem parse_job_card_url_normalized_witness:
  "parse_job_card card_relative
     = Some (mk_job ''Data Engineer'' ''https://www.linkedin.com/jobs/view/123'')
   \<and> CHR ''?'' \<notin> set (url (mk_job ''Data Engineer'' ''https://www.linkedin.com/jobs/view/123''))
   \<and> startswith (url (mk_job ''Data Engineer'' ''https://www.linkedin.com/jobs/view/123''))
        ''http''"
  using parse_job_card_url_normalized [OF parse_card_relative] parse_card_relative
  by blast

section \<open>Properties of the deduplication\<close>

lemma dedup_loop_urls:
  "url ` set (dedup_loop seen unique js)
     = url ` set unique \<union> ((url ` set js - seen) - {[]})"
  by (induction js arbitrary: seen unique) auto

lemma dedup_loop_distinct:
  "distinct (map url unique) \<Longrightarrow> url ` set unique \<subseteq> seen \<Longrightarrow>
   distinct (map url (dedup_loop seen unique js))"
proof (induction js arbitrary: seen unique)
  case Nil
  then show ?case by simp
next
  case (Cons j js)
  show ?case
  proof (cases "url j \<noteq> [] \<and> url j \<notin> seen")
    case True
    have "distinct (map url (unique @ [j]))"
      using Cons.prems True by auto
    moreover have "url ` set (unique @ [j]) \<subseteq> insert (url j) seen"
      using Cons.prems by auto
    ultimately show ?thesis
      using Cons.IH True by simp
  next
    case False
    then show ?thesis using Cons by auto
  qed
qed

lemma dedup_loop_append:
  "dedup_loop seen unique js = unique @ dedup_loop seen [] js"
proof (induction js arbitrary: seen unique)
  case Nil
  then show ?case by simp
next
  case (Cons j js)
  show ?case
    using Cons.IH [of "insert (url j) seen" "unique @ [j]"]
          Cons.IH [of "insert (url j) seen" "[j]"] Cons.IH [of seen unique]
    by simp
qed

lemma dedup_loop_subseq: "subseq (dedup_loop seen [] js) js"
proof (induction js arbitrary: seen)
  case Nil
  then show ?case by simp
next
  case (Cons j js)
  show ?case
    using Cons.IH [of seen] Cons.IH [of "insert (url j) seen"]
          dedup_loop_append [of "insert (url j) seen" "[j]" js]
    by auto
qed

lemma dedup_loop_first:
  "k \<in> set (dedup_loop seen [] js) \<Longrightarrow> List.find (\<lambda>j. url j = url k) js = Some k"
proof (induction js arbitrary: seen)
  case Nil
  then show ?case by simp
next
  case (Cons j js)
  show ?case
  proof (cases "url j \<noteq> [] \<and> url j \<notin> seen")
    case True
    with Cons.prems have "k = j \<or> k \<in> set (dedup_loop (insert (url j) seen) [] js)"
      using dedup_loop_append [of "insert (url j) seen" "[j]" js] by auto
    then show ?thesis
    proof
      assume "k = j"
      then show ?thesis by simp
    next
      assume k: "k \<in> set (dedup_loop (insert (url j) seen) [] js)"
      then have "url k \<in> url ` set js - insert (url j) seen"
        using dedup_loop_urls [of "insert (url j) seen" "[]" js] by auto
      then have "url j \<noteq> url k" by auto
      with Cons.IH [OF k] show ?thesis by simp
    qed
  next
    case False
    with Cons.prems have k: "k \<in> set (dedup_loop seen [] js)" by auto
    then have "url k \<in> (url ` set js - seen) - {[]}"
      using dedup_loop_urls [of seen "[]" js] by auto
    with False have "url j \<noteq> url k" by auto
    with Cons.IH [OF k] show ?thesis by simp
  qed
qed

lemma deduplicate_jobs_distinct: "distinct (map url (deduplicate_jobs jobs))"
  unfolding deduplicate_jobs_def by (rule dedup_loop_distinct) simp_all

lemma deduplicate_jobs_subseq: "subseq (deduplicate_jobs jobs) jobs"
  unfolding deduplicate_jobs_def by (rule dedup_loop_subseq)

lemma deduplicate_jobs_urls:
  "set (map url (deduplicate_jobs jobs)) = set (map url jobs) - {[]}"
  unfolding deduplicate_jobs_def using dedup_loop_urls [of "{}" "[]" jobs] by simp

lemma deduplicate_jobs_first:
  "k \<in> set (deduplicate_jobs jobs) \<Longrightarrow> List.find (\<lambda>j. url j = url k) jobs = Some k"
  unfolding deduplicate_jobs_def by (rule dedup_loop_first)

lemma distinct_map_filter_one:
  "distinct (map f xs) \<Longrightarrow> u \<in> f ` set xs \<Longrightarrow> length (filter (\<lambda>k. f k = u) xs) = 1"
proof (induction xs)
  case Nil
  then show ?case by simp
next
  case (Cons x xs)
  show ?case
  proof (cases "f x = u")
    case True
    with Cons.prems have "u \<notin> f ` set xs" by simp
    then have "filter (\<lambda>k. f k = u) xs = []"
      by (auto simp: filter_empty_conv)
    with True show ?thesis by simp
  next
    case False
    with Cons show ?thesis by auto
  qed
qed

text \<open>
  The lists that reach \<open>_deduplicate_jobs\<close>: its only call (line 893) passes the
  accumulation of the loop, which holds records of \<open>parse_jobs\<close>, and the url of such a
  record starts with \<open>http\<close>. The guard \<open>if url\<close> of line 793, which would drop a record
  with an empty or missing url, never fires on them.
\<close>

lemma parse_jobs_url_nonempty:
  assumes "j \<in> set (parse_jobs html)"
  shows "url j \<noteq> []"
proof -
  from assms obtain li where "parse_job_card li = Some j"
    by (auto simp: parse_jobs_def List.map_filter_def)
  from accepted_url [OF this] obtain h where "url j = normalize_url h"
    by blast
  with normalize_url_http [of h] show ?thesis
    by (auto simp: startswith_def)
qed

text \<open>
  Claim C8. For every input list of records (the url of a record is never empty),
  \<open>_deduplicate_jobs\<close> keeps exactly one record for each url of the input, the first one
  encountered: the urls of the result are pairwise different, they are the urls of the
  input, each of them belongs to exactly one record of the result, the result is a
  subsequence of the input (first-seen order), and every record kept is the first record of
  the input with its url. A later record with a url already seen is dropped, without an
  error.
\<close>

theorem deduplicate_jobs_keeps_first:
  assumes "\<forall>j \<in> set jobs. url j \<noteq> []"
  shows "distinct (map url (deduplicate_jobs jobs))
         \<and> set (map url (deduplicate_jobs jobs)) = set (map url jobs)
         \<and> (\<forall>u \<in> set (map url jobs).
               length (filter (\<lambda>k. url k = u) (deduplicate_jobs jobs)) = 1)
         \<and> subseq (deduplicate_jobs jobs) jobs
         \<and> (\<forall>k \<in> set (deduplicate_jobs jobs).
               List.find (\<lambda>j. url j = url k) jobs = Some k)"
proof -
  have urls: "set (map url (deduplicate_jobs jobs)) = set (map url jobs)"
    using assms deduplicate_jobs_urls [of jobs] by auto
  have "\<forall>u \<in> set (map url jobs).
          length (filter (\<lambda>k. url k = u) (deduplicate_jobs jobs)) = 1"
  proof
    fix u
    assume "u \<in> set (map url jobs)"
    with urls have "u \<in> url ` set (deduplicate_jobs jobs)" by simp
    with deduplicate_jobs_distinct [of jobs]
    show "length (filter (\<lambda>k. url k = u) (deduplicate_jobs jobs)) = 1"
      by (rule distinct_map_filter_one)
  qed
  with urls show ?thesis
    using deduplicate_jobs_distinct [of jobs] deduplicate_jobs_subseq [of jobs]
          deduplicate_jobs_first [of _ jobs]
    by blast
qed

theorem deduplicate_jobs_keeps_first_witness:
  "deduplicate_jobs jobs_repeated
     = [mk_job ''Data Engineer'' ''https://www.linkedin.com/jobs/view/1'',
        mk_job ''Data Analyst'' ''https://www.linkedin.com/jobs/view/2'']
   \<and> distinct (map url (deduplicate_jobs jobs_repeated))
   \<and> set (map url (deduplicate_jobs jobs_repeated)) = set (map url jobs_repeated)
   \<and> subseq (deduplicate_jobs jobs_repeated) jobs_repeated"
proof -
  have nonempty: "\<forall>j \<in> set jobs_repeated. url j \<noteq> []"
    by (simp add: jobs_repeated_def mk_job_def)
  have run: "deduplicate_jobs jobs_repeated
     = [mk_job ''Data Engineer'' ''https://www.linkedin.com/jobs/view/1'',
        mk_job ''Data Analyst'' ''https://www.linkedin.com/jobs/view/2'']"
    by (simp add: deduplicate_jobs_def mk_job_def jobs_repeated_def)
  from deduplicate_jobs_keeps_first [OF nonempty] run
  show ?thesis by simp
qed

section \<open>Properties of the transport\<close>

lemma error_status_not_4xx: "error_status e = Some st \<Longrightarrow> \<not> is_error_status st"
  by (auto simp: error_status_def response_bool_def
           split: request_exception.splits option.splits if_splits)

text \<open>The only exception that leaves \<open>fetch_page\<close> is the built-in \<open>ConnectionError\<close>: the
  status read from an \<open>HTTPError\<close> is never 429 or 403, and an \<open>SSLError\<close> of the library
  is caught by the clause for \<open>ConnectionError\<close>, which comes first.\<close>

lemma fetch_attempts_raises:
  "fst (fetch_attempts w rq k log) = Inl e \<Longrightarrow> e = ConnectionError"
proof (induction k arbitrary: log)
  case 0
  then show ?case by simp
next
  case (Suc k)
  show ?case
  proof (cases "get_checked w (length log) rq")
    case (Inr r)
    with Suc.prems show ?thesis
      by (simp add: Let_def split: if_splits)
  next
    case (Inl x)
    have a: "error_status x \<noteq> Some 429" "error_status x \<noteq> Some 403"
      using error_status_not_4xx [of x] by (auto simp: is_error_status_def)
    have b: "is_SSLError x \<Longrightarrow> is_ConnectionError x"
      by (cases x) auto
    from Suc.prems Inl a b show ?thesis
      by (auto simp: Let_def split: if_splits dest: Suc.IH)
  qed
qed

lemma fetch_attempts_sent:
  "\<exists>n. snd (fetch_attempts w rq k log) = log @ replicate n rq \<and> n \<le> k
        \<and> (0 < k \<longrightarrow> 0 < n)"
proof (induction k arbitrary: log)
  case 0
  then show ?case by simp
next
  case (Suc k)
  have base: "\<exists>n. log @ [rq] = log @ replicate n rq \<and> n \<le> Suc k \<and> 0 < n"
    by (rule exI [of _ 1]) simp
  have step: "\<exists>n. snd (fetch_attempts w rq k (log @ [rq])) = log @ replicate n rq
                   \<and> n \<le> Suc k \<and> 0 < n"
  proof -
    from Suc.IH [of "log @ [rq]"] obtain n where
      "snd (fetch_attempts w rq k (log @ [rq])) = (log @ [rq]) @ replicate n rq" "n \<le> k"
      by blast
    then show ?thesis
      by (intro exI [of _ "Suc n"]) (simp add: replicate_app_Cons_same)
  qed
  show ?case
    using base step by (simp add: Let_def split: sum.splits)
qed

lemma fetch_job_page_raises:
  assumes "fetch_job_page w m t l st lvl log = (Inl e, log')"
  shows "e = ConnectionError"
proof -
  from assms have "fst (fetch_attempts w (search_params t l st lvl) m log) = Inl e"
    by (simp add: fetch_job_page_def fetch_page_def)
  then show ?thesis by (rule fetch_attempts_raises)
qed

lemma rq_keywords_search_params [simp]: "rq_keywords (search_params t l st lvl) = t"
  by (simp add: search_params_def)

section \<open>Properties of the pagination loop\<close>

lemma empty_run_Cons:
  "empty_run (ev # evs) = (if yields_none ev then Suc (empty_run evs) else 0)"
  by (simp add: empty_run_def)

lemma three_empty_Cons:
  "three_empty (ev # evs) = (three_empty evs \<or> (yields_none ev \<and> 2 \<le> empty_run evs))"
proof (cases evs)
  case Nil
  then show ?thesis by (simp add: empty_run_def)
next
  case (Cons a as)
  then show ?thesis by (cases as) (auto simp: empty_run_def)
qed

lemma empty_run_three:
  assumes "3 \<le> empty_run evs"
  shows "three_empty evs"
  using assms
  by (cases evs rule: three_empty.cases) (auto simp: empty_run_def split: if_splits)

lemma loop_inv_initial: "loop_inv initial_state"
  by (simp add: loop_inv_def initial_state_def empty_run_def)

lemma scrape_step_Continue:
  assumes "scrape_step w m t l n lvl s = Continue s'" and "loop_inv s"
  shows "loop_inv s'"
  using assms empty_run_three [of "events s"]
  by (auto simp: scrape_step_def loop_inv_def Let_def advance_def three_empty_Cons
        empty_run_Cons yields_none_def
        split: prod.splits sum.splits option.splits if_splits)

lemma scrape_step_Break:
  assumes "scrape_step w m t l n lvl s = Break r s'" and "loop_inv s"
    and "int (length (all_jobs s)) < n"
  shows "consecutive_empty s' = empty_run (events s')
         \<and> all_jobs s' = accumulated (events s')
         \<and> (\<forall>e. Terminal e \<notin> set (events s'))
         \<and> (three_empty (events s') = (r \<noteq> Enough))
         \<and> (r \<noteq> Enough \<longrightarrow> consecutive_empty s' = 3)
         \<and> (r = Enough \<longrightarrow> n \<le> int (length (all_jobs s')))"
proof -
  have "empty_run (events s) \<le> 2"
    using assms(2) empty_run_three [of "events s"] by (fastforce simp: loop_inv_def)
  with assms show ?thesis
    by (auto simp: scrape_step_def loop_inv_def Let_def advance_def three_empty_Cons
          empty_run_Cons yields_none_def
          split: prod.splits sum.splits option.splits if_splits)
qed

lemma scrape_step_Raise:
  assumes "scrape_step w m t l n lvl s = Raise e s'"
  shows "events s' = Terminal e # events s \<and> all_jobs s' = all_jobs s \<and> e = ConnectionError"
  using assms
  by (auto simp: scrape_step_def Let_def advance_def
        split: prod.splits sum.splits option.splits if_splits dest: fetch_job_page_raises)

lemma scrape_step_reset:
  assumes "events (result_state (scrape_step w m t l n lvl s)) = Parsed js # events s"
    and "js \<noteq> []"
  shows "consecutive_empty (result_state (scrape_step w m t l n lvl s)) = 0"
  using assms
  by (auto simp: scrape_step_def Let_def advance_def
        split: prod.splits sum.splits option.splits if_splits)

lemma scrape_loop_inv:
  assumes "loop_inv s" and "scrape_loop w m t l n lvl s = (out, sf)"
  shows "(three_empty (events sf) = (out = Inr FailedRequests \<or> out = Inr NoMoreJobs))
         \<and> (\<forall>e. (Terminal e \<in> set (events sf)) = (out = Inl e))
         \<and> (\<forall>r. out = Inr r \<longrightarrow> consecutive_empty sf = empty_run (events sf))
         \<and> (\<forall>r. out = Inr r \<longrightarrow> all_jobs sf = accumulated (events sf))
         \<and> (out = Inr FailedRequests \<or> out = Inr NoMoreJobs \<longrightarrow> consecutive_empty sf = 3)
         \<and> (out = Inr Enough \<longrightarrow> n \<le> int (length (all_jobs sf)))"
  using assms
proof (induction w m t l n lvl s arbitrary: out sf rule: scrape_loop.induct)
  case (1 w m t l n lvl s)
  show ?case
  proof (cases "int (length (all_jobs s)) < n")
    case False
    with "1.prems" have "out = Inr Enough" "sf = s"
      by (simp_all add: scrape_loop.simps)
    with "1.prems"(1) False show ?thesis
      by (simp add: loop_inv_def)
  next
    case True
    show ?thesis
    proof (cases "scrape_step w m t l n lvl s")
      case (Continue s')
      with True "1.prems" have run: "scrape_loop w m t l n lvl s' = (out, sf)"
        by (simp add: scrape_loop.simps)
      have "loop_inv s'"
        using scrape_step_Continue [OF Continue "1.prems"(1)] .
      from "1.IH" [OF True Continue this run] show ?thesis .
    next
      case (Break r s')
      with True "1.prems" have "out = Inr r" "sf = s'"
        by (simp_all add: scrape_loop.simps)
      with scrape_step_Break [OF Break "1.prems"(1) True] show ?thesis
        by (cases r) auto
    next
      case (Raise e s')
      with True "1.prems" have "out = Inl e" "sf = s'"
        by (simp_all add: scrape_loop.simps)
      with scrape_step_Raise [OF Raise] "1.prems"(1) show ?thesis
        by (auto simp: loop_inv_def three_empty_Cons yields_none_def)
    qed
  qed
qed

lemma scrape_loop_final:
  assumes "scrape_loop w m t l n lvl initial_state = (out, sf)"
  shows "(three_empty (events sf) = (out = Inr FailedRequests \<or> out = Inr NoMoreJobs))
         \<and> (\<forall>e. (Terminal e \<in> set (events sf)) = (out = Inl e))
         \<and> (\<forall>r. out = Inr r \<longrightarrow> consecutive_empty sf = empty_run (events sf))
         \<and> (\<forall>r. out = Inr r \<longrightarrow> all_jobs sf = accumulated (events sf))
         \<and> (out = Inr FailedRequests \<or> out = Inr NoMoreJobs \<longrightarrow> consecutive_empty sf = 3)
         \<and> (out = Inr Enough \<longrightarrow> n \<le> int (length (all_jobs sf)))"
  using scrape_loop_inv [OF loop_inv_initial assms] .

lemma scrape_step_requests:
  assumes "scrape_step w m t l n lvl s = res"
  shows "\<exists>k. sent_requests (result_state res)
               = sent_requests s @ replicate k (search_params t l (start s) lvl)
             \<and> (0 < m \<longrightarrow> 0 < k)"
proof -
  from fetch_attempts_sent [of w "search_params t l (start s) lvl" m "sent_requests s"]
  obtain k where k: "snd (fetch_job_page w m t l (start s) lvl (sent_requests s))
                       = sent_requests s @ replicate k (search_params t l (start s) lvl)"
    and pos: "0 < m \<longrightarrow> 0 < k"
    by (auto simp: fetch_job_page_def fetch_page_def)
  have "sent_requests (result_state res)
          = snd (fetch_job_page w m t l (start s) lvl (sent_requests s))"
    using assms
    by (auto simp: scrape_step_def Let_def advance_def
          split: prod.splits sum.splits option.splits if_splits)
  with k pos show ?thesis by auto
qed

lemma scrape_loop_requests:
  assumes "scrape_loop w m t l n lvl s = (out, sf)"
  shows "length (sent_requests s) \<le> length (sent_requests sf)
         \<and> (\<forall>rq \<in> set (sent_requests sf). rq \<in> set (sent_requests s) \<or> rq_keywords rq = t)
         \<and> (int (length (all_jobs s)) < n \<and> 0 < m
              \<longrightarrow> length (sent_requests s) < length (sent_requests sf))"
  using assms
proof (induction w m t l n lvl s arbitrary: out sf rule: scrape_loop.induct)
  case (1 w m t l n lvl s)
  show ?case
  proof (cases "int (length (all_jobs s)) < n")
    case False
    with "1.prems" show ?thesis by (simp add: scrape_loop.simps)
  next
    case True
    obtain res where res: "scrape_step w m t l n lvl s = res" by simp
    from scrape_step_requests [OF res] obtain k where
      k: "sent_requests (result_state res)
            = sent_requests s @ replicate k (search_params t l (start s) lvl)"
      and pos: "0 < m \<longrightarrow> 0 < k" by blast
    show ?thesis
    proof (cases res)
      case (Continue s')
      with True res "1.prems" have run: "scrape_loop w m t l n lvl s' = (out, sf)"
        by (simp add: scrape_loop.simps)
      from "1.IH" [OF True _ run] res Continue
      have ih: "length (sent_requests s') \<le> length (sent_requests sf)"
        "\<forall>rq \<in> set (sent_requests sf). rq \<in> set (sent_requests s') \<or> rq_keywords rq = t"
        by auto
      from k Continue have s': "sent_requests s'
            = sent_requests s @ replicate k (search_params t l (start s) lvl)" by simp
      from ih s' pos show ?thesis by auto
    next
      case (Break r s')
      with True res "1.prems" have "sf = s'" by (simp add: scrape_loop.simps)
      with k Break pos show ?thesis by auto
    next
      case (Raise e s')
      with True res "1.prems" have "sf = s'" by (simp add: scrape_loop.simps)
      with k Raise pos show ?thesis by auto
    qed
  qed
qed

lemma scrape_loop_raises:
  assumes "scrape_loop w m t l n lvl s = (Inl e, sf)"
  shows "e = ConnectionError"
  using assms
proof (induction w m t l n lvl s arbitrary: sf rule: scrape_loop.induct)
  case (1 w m t l n lvl s)
  show ?case
  proof (cases "int (length (all_jobs s)) < n")
    case False
    with "1.prems" show ?thesis by (simp add: scrape_loop.simps)
  next
    case True
    show ?thesis
    proof (cases "scrape_step w m t l n lvl s")
      case (Continue s')
      with True "1.prems" have "scrape_loop w m t l n lvl s' = (Inl e, sf)"
        by (simp add: scrape_loop.simps)
      from "1.IH" [OF True Continue this] show ?thesis .
    next
      case (Break r s')
      with True "1.prems" show ?thesis by (simp add: scrape_loop.simps)
    next
      case (Raise e' s')
      with True "1.prems" have "e' = e" by (simp add: scrape_loop.simps)
      with scrape_step_Raise [OF Raise] show ?thesis by simp
    qed
  qed
qed

lemma scrape_step_urls:
  assumes "\<forall>j \<in> set (all_jobs s). url j \<noteq> []"
  shows "\<forall>j \<in> set (all_jobs (result_state (scrape_step w m t l n lvl s))). url j \<noteq> []"
  using assms
  by (auto simp: scrape_step_def Let_def advance_def
        split: prod.splits sum.splits option.splits if_splits
        dest: parse_jobs_url_nonempty)

lemma scrape_loop_urls:
  assumes "\<forall>j \<in> set (all_jobs s). url j \<noteq> []"
    and "scrape_loop w m t l n lvl s = (out, sf)"
  shows "\<forall>j \<in> set (all_jobs sf). url j \<noteq> []"
  using assms
proof (induction w m t l n lvl s arbitrary: out sf rule: scrape_loop.induct)
  case (1 w m t l n lvl s)
  show ?case
  proof (cases "int (length (all_jobs s)) < n")
    case False
    with "1.prems" show ?thesis by (simp add: scrape_loop.simps)
  next
    case True
    note step = scrape_step_urls [OF "1.prems"(1), of w m t l n lvl]
    show ?thesis
    proof (cases "scrape_step w m t l n lvl s")
      case (Continue s')
      with True "1.prems" have run: "scrape_loop w m t l n lvl s' = (out, sf)"
        by (simp add: scrape_loop.simps)
      from step Continue have "\<forall>j \<in> set (all_jobs s'). url j \<noteq> []" by simp
      from "1.IH" [OF True Continue this run] show ?thesis .
    next
      case (Break r s')
      with True "1.prems" have "sf = s'" by (simp add: scrape_loop.simps)
      with step Break show ?thesis by simp
    next
      case (Raise e s')
      with True "1.prems" have "sf = s'" by (simp add: scrape_loop.simps)
      with step Raise show ?thesis by simp
    qed
  qed
qed

text \<open>The list that \<open>scrape\<close> hands to \<open>_deduplicate_jobs\<close> holds no record with an empty
  url.\<close>

lemma scrape_accumulation_urls:
  assumes "scrape_loop w m t l n lvl initial_state = (out, sf)"
  shows "\<forall>j \<in> set (all_jobs sf). url j \<noteq> []"
  using scrape_loop_urls [OF _ assms] by (simp add: initial_state_def)

text \<open>The runs on the concrete networks.\<close>

lemma parse_jobs_one: "parse_jobs [card_relative] = [the_job]"
  by (simp add: parse_jobs_def List.map_filter_def parse_card_relative the_job_def)

lemma parse_jobs_two: "parse_jobs [card_relative, card_relative] = [the_job, the_job]"
  by (simp add: parse_jobs_def List.map_filter_def parse_card_relative the_job_def)

lemma parse_jobs_none: "parse_jobs [] = []"
  by (simp add: parse_jobs_def List.map_filter_def)

lemma parse_jobs_three:
  "parse_jobs page_three
     = [mk_job ''Data Engineer'' ''https://www.linkedin.com/jobs/view/1'',
        mk_job ''Data Analyst'' ''https://www.linkedin.com/jobs/view/2'',
        mk_job ''Data Engineer'' ''https://www.linkedin.com/jobs/view/3'']"
  by (simp add: parse_jobs_def List.map_filter_def page_three_def job_card_def
        parse_job_card_def extract_title_def extract_url_def
        extract_date_def text_or_na_def selector_defs heading_simps link_simps
        clean_text_def py_split_def py_strip_def is_space_def
        normalize_url_def startswith_def origin_def mk_job_def)

lemmas run_defs =
  scrape_loop.simps scrape_step_def fetch_job_page_def fetch_page_def get_checked_def
  check_internet_connection_def is_error_status_def error_status_def response_bool_def
  advance_def JOBS_PER_PAGE_def initial_state_def ok_page_def Let_def numeral_3_eq_3

lemma run_offline:
  "scrape_loop world_offline_after_one 3 ''python'' ''India'' 5 None initial_state
     = (Inl ConnectionError,
        \<lparr>all_jobs = [the_job], start = 25, consecutive_empty = 0,
         sent_requests = [search_params ''python'' ''India'' 0 None,
                          search_params ''python'' ''India'' 25 None],
         events = [Terminal ConnectionError, Parsed [the_job]]\<rparr>)"
  by (simp add: run_defs world_offline_after_one_def parse_jobs_one)

lemma run_duplicates:
  "scrape_loop world_duplicates 3 kw ''India'' 2 None initial_state
     = (Inr Enough,
        \<lparr>all_jobs = [the_job, the_job], start = 25, consecutive_empty = 0,
         sent_requests = [search_params kw ''India'' 0 None],
         events = [Parsed [the_job, the_job]]\<rparr>)"
  by (simp add: run_defs world_duplicates_def parse_jobs_two)

lemma run_unproductive:
  "scrape_loop world_unproductive 3 ''python'' ''India'' 100 None initial_state
     = (Inr NoMoreJobs,
        \<lparr>all_jobs = [], start = 25, consecutive_empty = 3,
         sent_requests = [search_params ''python'' ''India'' 0 None,
                          search_params ''python'' ''India'' 0 None,
                          search_params ''python'' ''India'' 0 None,
                          search_params ''python'' ''India'' 0 None,
                          search_params ''python'' ''India'' 25 None],
         events = [Parsed [], Parsed [], FetchFailed]\<rparr>)"
  by (simp add: run_defs world_unproductive_def parse_jobs_none)

lemma run_429:
  "scrape_loop world_429 3 ''python'' ''India'' 10 None initial_state
     = (Inr FailedRequests,
        \<lparr>all_jobs = [], start = 0, consecutive_empty = 3,
         sent_requests = replicate 9 query_rq,
         events = [FetchFailed, FetchFailed, FetchFailed]\<rparr>)"
  by (simp add: run_defs world_429_def numeral_eq_Suc query_rq_def)

lemma run_three:
  "scrape_loop world_three 3 ''data'' ''India'' 2 None initial_state
     = (Inr Enough,
        \<lparr>all_jobs = parse_jobs page_three, start = 25, consecutive_empty = 0,
         sent_requests = [search_params ''data'' ''India'' 0 None],
         events = [Parsed (parse_jobs page_three)]\<rparr>)"
  by (simp add: run_defs world_three_def parse_jobs_three)

text \<open>
  Claim C5 at a concrete input: the server answers every request with status 429 and
  \<open>max_retries\<close> is 3. \<open>raise_for_status\<close> raises \<open>HTTPError\<close>; the response it carries is
  false as a truth value, so line 542 reads the status as \<open>None\<close>, the comparison with 429
  fails, and the attempt is retried. \<open>fetch_page\<close> sends three requests and returns
  \<open>None\<close>; no \<open>RateLimitError\<close> is raised. The run ends after three such fetches, nine
  requests in all, with the \<open>break\<close> for failed requests, and returns no record.
\<close>

theorem fetch_page_429_retried:
  "fetch_page world_429 3 query_rq [] = (Inr None, [query_rq, query_rq, query_rq])
   \<and> fst (scrape_loop world_429 3 ''python'' ''India'' 10 None initial_state)
       = Inr FailedRequests
   \<and> returned (scrape world_429 3 [] ''python'' ''India'' 10 None) = Inr []
   \<and> requests (scrape world_429 3 [] ''python'' ''India'' 10 None) = replicate 9 query_rq"
proof -
  have "fetch_page world_429 3 query_rq [] = (Inr None, [query_rq, query_rq, query_rq])"
    by (simp add: fetch_page_def numeral_3_eq_3 Let_def get_checked_def world_429_def
          is_error_status_def error_status_def response_bool_def)
  then show ?thesis
    by (simp add: scrape_def run_429 deduplicate_jobs_def Let_def)
qed

text \<open>
  Claim C9. In every run, three iterations in a row that each yield no accepted record
  (the fetch gave \<open>None\<close>, or the page parsed to no record) end the run with the \<open>break\<close>
  for failed requests or for no more jobs, whatever the target count is, and these three
  are the newest iterations of the run. At an ordinary end of the loop the counter equals
  the number of newest iterations without a record, and an iteration whose page yields at
  least one record leaves the counter at zero.
\<close>

theorem three_empty_iterations_stop:
  assumes "scrape_loop w m t l n lvl initial_state = (out, sf)"
  shows "(three_empty (events sf) \<longrightarrow>
            (out = Inr FailedRequests \<or> out = Inr NoMoreJobs)
            \<and> empty_run (events sf) = 3)
         \<and> (\<forall>r. out = Inr r \<longrightarrow> consecutive_empty sf = empty_run (events sf))
         \<and> (\<forall>s js. js \<noteq> [] \<and>
                events (result_state (scrape_step w m t l n lvl s)) = Parsed js # events s
                \<longrightarrow> consecutive_empty (result_state (scrape_step w m t l n lvl s)) = 0)"
proof -
  note fin = scrape_loop_final [OF assms]
  have "three_empty (events sf) \<longrightarrow>
          (out = Inr FailedRequests \<or> out = Inr NoMoreJobs) \<and> empty_run (events sf) = 3"
    using fin by auto
  moreover have "\<forall>r. out = Inr r \<longrightarrow> consecutive_empty sf = empty_run (events sf)"
    using fin by blast
  ultimately show ?thesis
    using scrape_step_reset by blast
qed

theorem three_empty_iterations_stop_witness:
  "three_empty
     (events (snd (scrape_loop world_unproductive 3 ''python'' ''India'' 100 None initial_state)))
   \<and> fst (scrape_loop world_unproductive 3 ''python'' ''India'' 100 None initial_state)
       = Inr NoMoreJobs
   \<and> all_jobs (snd (scrape_loop world_unproductive 3 ''python'' ''India'' 100 None
                       initial_state)) = []
   \<and> empty_run
       (events (snd (scrape_loop world_unproductive 3 ''python'' ''India'' 100 None
                       initial_state))) = 3"
proof -
  have three: "three_empty
     (events (snd (scrape_loop world_unproductive 3 ''python'' ''India'' 100 None initial_state)))"
    by (simp add: run_unproductive yields_none_def)
  from three_empty_iterations_stop [OF run_unproductive] three
  show ?thesis by (simp add: run_unproductive)
qed

section \<open>Properties of the scrape operation\<close>

lemma requests_scrape:
  "requests (scrape w m old_jobs t l n lvl)
     = sent_requests (snd (scrape_loop w m t l n lvl initial_state))"
  by (auto simp: scrape_def Let_def split: prod.splits sum.splits)

lemma returned_scrape_Inl:
  "(returned (scrape w m old_jobs t l n lvl) = Inl e)
     = (fst (scrape_loop w m t l n lvl initial_state) = Inl e)"
  by (auto simp: scrape_def Let_def split: prod.splits sum.splits)

lemma py_prefix_take: "\<exists>k. py_prefix xs n = take k xs"
  by (auto simp: py_prefix_def)

lemma scrape_returned_Inr:
  assumes "scrape_loop w m t l n lvl initial_state = (Inr r, sf)"
  shows "\<exists>k. returned (scrape w m old_jobs t l n lvl)
               = Inr (take k (deduplicate_jobs (all_jobs sf)))"
proof (cases "int (length (deduplicate_jobs (all_jobs sf))) > n")
  case True
  obtain k where
    "py_prefix (deduplicate_jobs (all_jobs sf)) n = take k (deduplicate_jobs (all_jobs sf))"
    using py_prefix_take by blast
  with True assms show ?thesis
    by (auto simp: scrape_def Let_def)
next
  case False
  with assms show ?thesis
    by (intro exI [of _ "length (deduplicate_jobs (all_jobs sf))"])
       (simp add: scrape_def Let_def)
qed

text \<open>
  Claim C1, as stated, fails. The network serves one page with one listing and is then
  unreachable: the second fetch raises the connection error. When it is raised the
  accumulation holds one record; \<open>scrape\<close> is left by the exception, returns nothing, and
  \<open>self.jobs\<close> is still the empty list it was before the call.
\<close>

theorem scrape_partial_records_lost:
  "all_jobs (snd (scrape_loop world_offline_after_one 3 ''python'' ''India'' 5 None initial_state))
     = [the_job]
   \<and> returned (scrape world_offline_after_one 3 [] ''python'' ''India'' 5 None)
       = Inl ConnectionError
   \<and> self_jobs (scrape world_offline_after_one 3 [] ''python'' ''India'' 5 None) = []"
  by (simp add: scrape_def run_offline)

text \<open>
  Claim C1, amended. For every run in which the transport raises a terminal failure,
  \<open>scrape\<close> passes that failure on to its caller and returns no records: the records
  accumulated before the failure are not handed over, and \<open>self.jobs\<close> is what it was before
  the call.
\<close>

theorem scrape_terminal_failure_propagates:
  assumes "Terminal e \<in> set (events (snd (scrape_loop w m t l n lvl initial_state)))"
  shows "returned (scrape w m old_jobs t l n lvl) = Inl e
         \<and> self_jobs (scrape w m old_jobs t l n lvl) = old_jobs"
proof -
  obtain out sf where run: "scrape_loop w m t l n lvl initial_state = (out, sf)"
    by (cases "scrape_loop w m t l n lvl initial_state")
  with assms scrape_loop_final [OF run] have "out = Inl e" by simp
  with run show ?thesis by (simp add: scrape_def)
qed

theorem scrape_terminal_failure_propagates_witness:
  "Terminal ConnectionError
     \<in> set (events (snd (scrape_loop world_offline_after_one 3 ''python'' ''India'' 5 None
                            initial_state)))
   \<and> returned (scrape world_offline_after_one 3 [the_job] ''python'' ''India'' 5 None)
       = Inl ConnectionError
   \<and> self_jobs (scrape world_offline_after_one 3 [the_job] ''python'' ''India'' 5 None)
       = [the_job]"
proof -
  have ev: "Terminal ConnectionError
     \<in> set (events (snd (scrape_loop world_offline_after_one 3 ''python'' ''India'' 5 None
                            initial_state)))"
    by (simp add: run_offline)
  from scrape_terminal_failure_propagates [OF ev, of "[the_job]"] ev
  show ?thesis by simp
qed

text \<open>
  Claim C2, as stated, fails. The page holds the same listing twice and the target count is
  2: the loop appends both records, the accumulation holds two records with one url, the
  stopping condition counts two, and the run returns one record.
\<close>

theorem scrape_loop_keeps_duplicates:
  "fst (scrape_loop world_duplicates 3 ''python'' ''India'' 2 None initial_state) = Inr Enough
   \<and> all_jobs (snd (scrape_loop world_duplicates 3 ''python'' ''India'' 2 None initial_state))
       = [the_job, the_job]
   \<and> \<not> distinct (map url [the_job, the_job])
   \<and> returned (scrape world_duplicates 3 [] ''python'' ''India'' 2 None) = Inr [the_job]"
  by (simp add: scrape_def run_duplicates deduplicate_jobs_def the_job_def mk_job_def Let_def)

text \<open>
  Claim C2, amended. The records that a completed run returns contain no two records with
  the same url: the accumulation is deduplicated once, after the loop has ended. During
  the loop the records of each page are appended as they are, so the accumulation is the
  list of all records of all pages and may hold duplicates, and the stopping condition on
  the target count counts them all.
\<close>

theorem scrape_returns_distinct_urls:
  assumes "scrape_loop w m t l n lvl initial_state = (Inr r, sf)"
  shows "all_jobs sf = accumulated (events sf)
         \<and> (r = Enough \<longrightarrow> n \<le> int (length (all_jobs sf)))
         \<and> (\<exists>js. returned (scrape w m old_jobs t l n lvl) = Inr js
                  \<and> distinct (map url js) \<and> subseq js (all_jobs sf))"
proof -
  from scrape_returned_Inr [OF assms, of old_jobs] obtain k where
    k: "returned (scrape w m old_jobs t l n lvl) = Inr (take k (deduplicate_jobs (all_jobs sf)))"
    by blast
  have "distinct (map url (take k (deduplicate_jobs (all_jobs sf))))"
    using deduplicate_jobs_distinct [of "all_jobs sf"]
    by (simp add: take_map [symmetric])
  moreover have "subseq (take k (deduplicate_jobs (all_jobs sf))) (all_jobs sf)"
    by (rule subseq_order.trans [OF prefix_imp_subseq [OF take_is_prefix]
           deduplicate_jobs_subseq])
  ultimately show ?thesis
    using k scrape_loop_final [OF assms] by auto
qed

theorem scrape_returns_distinct_urls_witness:
  "scrape_loop world_duplicates 3 ''python'' ''India'' 2 None initial_state
     = (Inr Enough,
        \<lparr>all_jobs = [the_job, the_job], start = 25, consecutive_empty = 0,
         sent_requests = [search_params ''python'' ''India'' 0 None],
         events = [Parsed [the_job, the_job]]\<rparr>)
   \<and> (\<exists>js. returned (scrape world_duplicates 3 [] ''python'' ''India'' 2 None) = Inr js
            \<and> distinct (map url js) \<and> subseq js [the_job, the_job])"
  using scrape_returns_distinct_urls [OF run_duplicates, of "''python''" "[]"] run_duplicates
  by simp

text \<open>
  Claim C3, as stated, fails. Called with empty keywords and the target count 1,
  \<open>scrape\<close> sends a request whose keywords are the empty string and returns the record of
  the page it receives; no validation error is raised.
\<close>

theorem scrape_empty_keywords_not_rejected:
  "returned (scrape world_duplicates 3 [] [] ''India'' 1 None) = Inr [the_job]
   \<and> requests (scrape world_duplicates 3 [] [] ''India'' 1 None)
       = [\<lparr>rq_keywords = [], rq_location = ''India'', rq_start = 0, rq_f_E = None\<rparr>]"
  by (simp add: scrape_def run_defs world_duplicates_def parse_jobs_two deduplicate_jobs_def
        the_job_def mk_job_def search_params_def)

text \<open>
  Claim C3, amended. \<open>scrape\<close> does not validate its query. For every call with a positive
  target count and at least one attempt per fetch, also when the keywords are empty, the
  run sends at least one request, every request of the run carries the keywords as they
  were given, and the run never ends with a validation error. (Empty keywords are refused
  only by the interactive prompt, which asks again.)
\<close>

theorem scrape_sends_unvalidated_query:
  assumes "0 < num_jobs" and "0 < max_retries"
  shows "requests (scrape w max_retries old_jobs title loc num_jobs lvl) \<noteq> []
         \<and> (\<forall>rq \<in> set (requests (scrape w max_retries old_jobs title loc num_jobs lvl)).
               rq_keywords rq = title)
         \<and> returned (scrape w max_retries old_jobs title loc num_jobs lvl)
             \<noteq> Inl InputValidationError"
proof -
  obtain out sf where
    run: "scrape_loop w max_retries title loc num_jobs lvl initial_state = (out, sf)"
    by (cases "scrape_loop w max_retries title loc num_jobs lvl initial_state")
  from scrape_loop_requests [OF run] assms
  have "sent_requests sf \<noteq> []" "\<forall>rq \<in> set (sent_requests sf). rq_keywords rq = title"
    by (auto simp: initial_state_def)
  moreover have "out \<noteq> Inl InputValidationError"
    using scrape_loop_raises
            [of w max_retries title loc num_jobs lvl initial_state InputValidationError sf] run
    by auto
  ultimately show ?thesis
    using run by (simp add: requests_scrape returned_scrape_Inl)
qed

theorem scrape_sends_unvalidated_query_witness:
  "(0::int) < 1 \<and> (0::nat) < 3
   \<and> requests (scrape world_duplicates 3 [] [] ''India'' 1 None) \<noteq> []
   \<and> rq_keywords (hd (requests (scrape world_duplicates 3 [] [] ''India'' 1 None))) = []
   \<and> returned (scrape world_duplicates 3 [] [] ''India'' 1 None) \<noteq> Inl InputValidationError"
  using scrape_sends_unvalidated_query [of 1 3 world_duplicates "[]" "[]" "''India''" None]
  by simp

text \<open>
  Claim C4. For every target count \<open>N\<close> and every run that completes, whatever ended the
  loop, \<open>scrape\<close> returns at most \<open>N\<close> records: the first \<open>N\<close> records, in the order of
  encounter, of the deduplicated accumulation.
\<close>

theorem scrape_trims_to_target:
  assumes "returned (scrape w m old_jobs t l n lvl) = Inr js"
  shows "length js \<le> nat n
         \<and> js = take (nat n)
                  (deduplicate_jobs
                     (accumulated (events (snd (scrape_loop w m t l n lvl initial_state)))))"
proof -
  obtain out sf where run: "scrape_loop w m t l n lvl initial_state = (out, sf)"
    by (cases "scrape_loop w m t l n lvl initial_state")
  with assms obtain r where out: "out = Inr r"
    by (cases out) (auto simp: scrape_def)
  from scrape_loop_final [OF run] out have acc: "all_jobs sf = accumulated (events sf)"
    by simp
  let ?d = "deduplicate_jobs (all_jobs sf)"
  have js: "js = (if int (length ?d) > n then py_prefix ?d n else ?d)"
    using assms run out by (simp add: scrape_def Let_def)
  have "js = take (nat n) ?d"
  proof (cases "0 \<le> n")
    case True
    then show ?thesis using js by (auto simp: py_prefix_def)
  next
    case False
    then have "sf = initial_state"
      using run by (simp add: scrape_loop.simps initial_state_def)
    then have "?d = []"
      by (simp add: initial_state_def deduplicate_jobs_def)
    then show ?thesis using js by (simp add: py_prefix_def)
  qed
  then show ?thesis using acc run by simp
qed

lemma scrape_three:
  "returned (scrape world_three 3 [] ''data'' ''India'' 2 None)
     = Inr [mk_job ''Data Engineer'' ''https://www.linkedin.com/jobs/view/1'',
            mk_job ''Data Analyst'' ''https://www.linkedin.com/jobs/view/2'']"
  by (simp add: scrape_def run_three parse_jobs_three deduplicate_jobs_def mk_job_def Let_def
        py_prefix_def)

theorem scrape_trims_to_target_witness:
  "returned (scrape world_three 3 [] ''data'' ''India'' 2 None)
     = Inr [mk_job ''Data Engineer'' ''https://www.linkedin.com/jobs/view/1'',
            mk_job ''Data Analyst'' ''https://www.linkedin.com/jobs/view/2'']
   \<and> length [mk_job ''Data Engineer'' ''https://www.linkedin.com/jobs/view/1'',
              mk_job ''Data Analyst'' ''https://www.linkedin.com/jobs/view/2''] \<le> nat 2
   \<and> length (deduplicate_jobs
        (accumulated (events (snd (scrape_loop world_three 3 ''data'' ''India'' 2 None
                                     initial_state))))) = 3"
  using scrape_trims_to_target [OF scrape_three] scrape_three
  by (simp add: run_three parse_jobs_three deduplicate_jobs_def mk_job_def)

section \<open>Properties of the job-count validation\<close>

text \<open>
  Claim C10. For every \<open>max_limit\<close> and every input that is empty or consists of whitespace
  only, \<open>validate_job_count\<close> returns the default 50 and does not compare it with
  \<open>max_limit\<close>: when the configured maximum is below 50, the count returned exceeds it and
  no validation error is raised.
\<close>

theorem validate_job_count_blank_default:
  assumes "py_strip val = []"
  shows "validate_job_count val max_limit = Inr 50
         \<and> (max_limit < 50 \<longrightarrow>
              (\<exists>n. validate_job_count val max_limit = Inr n \<and> max_limit < n))"
  using assms by (simp add: validate_job_count_def)

theorem validate_job_count_blank_default_witness:
  "py_strip ''  '' = [] \<and> validate_job_count ''  '' 10 = Inr 50
   \<and> (\<exists>n. validate_job_count ''  '' 10 = Inr n \<and> 10 < n)"
proof -
  have blank: "py_strip ''  '' = []"
    by (simp add: py_strip_def is_space_def)
  from validate_job_count_blank_default [OF blank, of 10] blank
  show ?thesis by simp
qed

end
